theory Spec2Isabelle
  imports Complex_Main "HOL-Library.Word" "HOL-Library.Multiset"
begin

unbundle bit_operations_syntax

section \<open>Data model\<close>

text \<open>
  Conventions of the embedding.
  \<^item> \<open>unsigned int\<close> is \<open>32 word\<close>, \<open>unsigned short\<close> is \<open>16 word\<close>, \<open>unsigned char\<close> is
    \<open>8 word\<close>; arithmetic on them wraps as in C++.
  \<^item> \<open>float\<close> and \<open>double\<close> values are real numbers: rounding error, infinities and NaN are
    not modelled. \<open>M_PI\<close> is \<open>pi\<close>.
  \<^item> A \<open>std::vector\<close> is a list; \<open>push_back\<close> appends at the end.
\<close>

record Line =
  theta :: real
  rho :: real

record Point =
  px :: real
  py :: real

text \<open>
  Modelled from the spec: the declaration of \<open>Image\<close> (Image.h) is not part of the sources.
  The accumulator image is a width times height grid of unsigned 16-bit vote counts, packed
  in a buffer of 3 bytes per pixel; the first two bytes are the little-endian magnitude, the
  third byte is unused.
\<close>

record Image =
  width :: "32 word"
  height :: "32 word"
  data :: "8 word list"

text \<open>
  Modelled from the spec: a well-formed image holds exactly 3 bytes for each of its
  width times height pixels, and its byte indices fit an \<open>unsigned int\<close>. The source
  reads the buffer unchecked; on a well-formed image every read of \<open>FindLines\<close> is in range
  (lemmas \<open>linear_read_in_range\<close> and \<open>pixel_read_in_range\<close>).
\<close>

definition wf_Image :: "Image \<Rightarrow> bool" where
  "wf_Image img \<longleftrightarrow>
     length (data img) = 3 * unat (width img) * unat (height img) \<and>
     3 * unat (width img) * unat (height img) < 2 ^ 32"

section \<open>Library functions of \<open>cmath\<close>\<close>

text \<open>\<open>std::lround\<close>: round to the nearest integer, halfway cases away from zero.\<close>

definition lround :: "real \<Rightarrow> int" where
  "lround r = (if 0 \<le> r then \<lfloor>r + 1 / 2\<rfloor> else \<lceil>r - 1 / 2\<rceil>)"

definition hypot :: "real \<Rightarrow> real \<Rightarrow> real" where
  "hypot a b = sqrt (a * a + b * b)"

text \<open>\<open>fmod\<close>: the remainder of the division truncated towards zero.\<close>

definition fmod :: "real \<Rightarrow> real \<Rightarrow> real" where
  "fmod a b = a - b * real_of_int (if 0 \<le> a / b then \<lfloor>a / b\<rfloor> else \<lceil>a / b\<rceil>)"

section \<open>\<open>FindLines\<close>: the peak extractor\<close>

text \<open>An angle must be within this delta to be considered similar.\<close>

definition DELTA_THETA :: real where
  "DELTA_THETA = pi / 12"

text \<open>
  \<^verbatim>\<open>const int radius = std::min(1l,std::lround(static_cast<float>(std::max(width,height)) / 96.0f));\<close>
\<close>

definition radius :: "Image \<Rightarrow> int" where
  "radius img = min 1 (lround (real (unat (max (width img) (height img))) / 96))"

text \<open>
  \<^verbatim>\<open>*reinterpret_cast<const unsigned short*>(&data[index])\<close> on a little-endian host:
  the byte at \<open>index\<close> is the low byte, the byte at \<open>index + 1\<close> the high byte.
\<close>

definition read_u16 :: "8 word list \<Rightarrow> nat \<Rightarrow> 16 word" where
  "read_u16 d i = ucast (d ! i) OR push_bit 8 (ucast (d ! (i + 1)))"

text \<open>
  The first loop: the largest vote, reading pixel \<open>x\<close> at byte index \<open>x * 3\<close> for
  every \<open>x < width * height\<close> (both products in \<open>unsigned int\<close>).
\<close>

definition maximumValue :: "Image \<Rightarrow> 16 word" where
  "maximumValue img =
     fold (\<lambda>x m. max m (read_u16 (data img) (unat ((word_of_nat x :: 32 word) * 3))))
       [0..<unat (width img * height img)] 0"

text \<open>
  \<^verbatim>\<open>const unsigned short minimumValue = maximumValue * 3 / 4;\<close>
  The operands are promoted to \<open>int\<close>, so the product does not wrap and the division
  truncates.
\<close>

definition minimumValue :: "Image \<Rightarrow> 16 word" where
  "minimumValue img = word_of_nat (unat (maximumValue img) * 3 div 4)"

definition ExtractValue :: "Image \<Rightarrow> 32 word \<Rightarrow> 32 word \<Rightarrow> 16 word" where
  "ExtractValue img x y =
     (if x \<ge> width img \<or> y \<ge> height img then 0
      else read_u16 (data img) (unat ((y * width img + x) * 3)))"

text \<open>
  The inner loop over \<open>nx\<close>, for one \<open>ny\<close>: \<open>False\<close> is the \<open>break\<close> with \<open>peak = false\<close>.
  The neighbour coordinate \<open>static_cast<unsigned int>(static_cast<int>(x) + nx)\<close> is the
  sum modulo \<open>2 ^ 32\<close>.
\<close>

fun scanRow :: "Image \<Rightarrow> 16 word \<Rightarrow> 32 word \<Rightarrow> 32 word \<Rightarrow> int \<Rightarrow> int list \<Rightarrow> bool" where
  "scanRow img v x y ny [] = True"
| "scanRow img v x y ny (nx # nxs) =
     (if nx = 0 \<and> ny = 0 then scanRow img v x y ny nxs
      else if v < ExtractValue img (x + word_of_int nx) (y + word_of_int ny) then False
      else scanRow img v x y ny nxs)"

text \<open>The outer loop over \<open>ny\<close>, which stops as soon as \<open>peak\<close> is false.\<close>

fun scanWindow :: "Image \<Rightarrow> 16 word \<Rightarrow> 32 word \<Rightarrow> 32 word \<Rightarrow> int list \<Rightarrow> int list \<Rightarrow> bool" where
  "scanWindow img v x y [] nxs = True"
| "scanWindow img v x y (ny # nys) nxs =
     (if scanRow img v x y ny nxs then scanWindow img v x y nys nxs else False)"

definition isPeak :: "Image \<Rightarrow> 32 word \<Rightarrow> 32 word \<Rightarrow> bool" where
  "isPeak img x y =
     scanWindow img (ExtractValue img x y) x y
       [- radius img..radius img] [- radius img..radius img]"

definition rawTheta :: "Image \<Rightarrow> 32 word \<Rightarrow> real" where
  "rawTheta img x = real (unat x) / real (unat (width img)) * pi"

definition rawRho :: "32 word \<Rightarrow> 32 word \<Rightarrow> Image \<Rightarrow> 32 word \<Rightarrow> real" where
  "rawRho targetWidth targetHeight img y =
     (let rMultiplier = real (unat (height img)) / 2;
          maxR = hypot (real (unat targetWidth)) (real (unat targetHeight))
      in (real (unat y) - rMultiplier) * maxR / rMultiplier)"

text \<open>The conversion of a peak into Hesse normal form, with the sign normalisation of rho.\<close>

definition peakLine :: "32 word \<Rightarrow> 32 word \<Rightarrow> Image \<Rightarrow> 32 word \<Rightarrow> 32 word \<Rightarrow> Line" where
  "peakLine targetWidth targetHeight img x y =
     (let t = rawTheta img x; r = rawRho targetWidth targetHeight img y
      in if r < 0 then \<lparr>theta = fmod (t + pi) (2 * pi), rho = r * - 1\<rparr>
         else \<lparr>theta = t, rho = r\<rparr>)"

text \<open>The guard \<^verbatim>\<open>if(value < minimumValue) continue;\<close> of the pixel loop.\<close>

definition belowMinimum :: "Image \<Rightarrow> 32 word \<Rightarrow> 32 word \<Rightarrow> bool" where
  "belowMinimum img x y \<longleftrightarrow> ExtractValue img x y < minimumValue img"

text \<open>The body of the pixel loop: the lines it appends for pixel \<open>(x, y)\<close>.\<close>

definition scanPixel :: "32 word \<Rightarrow> 32 word \<Rightarrow> Image \<Rightarrow> 32 word \<Rightarrow> 32 word \<Rightarrow> Line list" where
  "scanPixel targetWidth targetHeight img x y =
     (if belowMinimum img x y then []
      else if isPeak img x y then [peakLine targetWidth targetHeight img x y]
      else [])"

definition FindLines :: "32 word \<Rightarrow> 32 word \<Rightarrow> Image \<Rightarrow> Line list" where
  "FindLines targetWidth targetHeight img =
     (if minimumValue img = 0 then []
      else concat (map (\<lambda>y. concat (map (\<lambda>x. scanPixel targetWidth targetHeight img x y)
                                      (map word_of_nat [0..<unat (width img)])))
                    (map word_of_nat [0..<unat (height img)])))"

section \<open>\<open>ClusterizeLinesByTheta\<close>\<close>

text \<open>
  \<open>MeanTheta\<close> and \<open>DifferenceTheta\<close> are defined outside the sources at hand; the functions
  that call them take them as parameters.

  The loop over the existing clusters: \<open>Some\<close> is the \<open>break\<close> after appending the line
  (or its twin) to the first cluster that accepts it, \<open>None\<close> is \<open>foundCluster = false\<close>.
\<close>

fun findCluster ::
  "(Line list \<Rightarrow> real) \<Rightarrow> (real \<Rightarrow> real \<Rightarrow> real) \<Rightarrow> Line \<Rightarrow> Line list list \<Rightarrow> Line list list option" where
  "findCluster MeanTheta DifferenceTheta line [] = None"
| "findCluster MeanTheta DifferenceTheta line (lineCluster # rest) =
     (let meanTheta = MeanTheta lineCluster;
          alternativeTheta = fmod (theta line + pi) (2 * pi)
      in if DifferenceTheta (theta line) meanTheta < DELTA_THETA
         then Some ((lineCluster @ [line]) # rest)
         else if DifferenceTheta alternativeTheta meanTheta < DELTA_THETA
         then Some ((lineCluster @ [\<lparr>theta = alternativeTheta, rho = rho line * - 1\<rparr>]) # rest)
         else map_option ((#) lineCluster) (findCluster MeanTheta DifferenceTheta line rest))"

definition addLine ::
  "(Line list \<Rightarrow> real) \<Rightarrow> (real \<Rightarrow> real \<Rightarrow> real) \<Rightarrow> Line list list \<Rightarrow> Line \<Rightarrow> Line list list" where
  "addLine MeanTheta DifferenceTheta lineClusters line =
     (case findCluster MeanTheta DifferenceTheta line lineClusters of
        Some lineClusters' \<Rightarrow> lineClusters'
      | None \<Rightarrow> lineClusters @ [[line]])"

definition ClusterizeLinesByTheta ::
  "(Line list \<Rightarrow> real) \<Rightarrow> (real \<Rightarrow> real \<Rightarrow> real) \<Rightarrow> Line list \<Rightarrow> Line list list" where
  "ClusterizeLinesByTheta MeanTheta DifferenceTheta lines =
     foldl (addLine MeanTheta DifferenceTheta) [] lines"




section \<open>\<open>FindPossiblePuzzleLines\<close>\<close>

definition DELTA_THRESHOLD :: real where
  "DELTA_THRESHOLD = 15"

text \<open>
  \<open>std::sort\<close> by \<open>fabsf(rho)\<close>. The order that \<open>std::sort\<close> gives to members of equal key
  is unspecified; the model is the stable insertion sort.
\<close>

definition sortByRho :: "Line list \<Rightarrow> Line list" where
  "sortByRho lineCluster = sort_key (\<lambda>l. \<bar>rho l\<bar>) lineCluster"

definition popcount :: "32 word \<Rightarrow> nat" where
  "popcount x = length (filter (bit x) [0..<32])"

text \<open>The indexes of the first four set bits, in ascending order.\<close>

definition GetSetBitIndexes :: "32 word \<Rightarrow> nat list" where
  "GetSetBitIndexes v = take 4 (filter (\<lambda>x. v AND push_bit x 1 > 0) [0..<32])"

text \<open>
  The four lines \<open>line0\<close> to \<open>line3\<close> that the set bits of \<open>x\<close> select. For the bit
  patterns that the search considers the indexes are below the size of the cluster
  (lemma \<open>combination_indexes_in_range\<close>).
\<close>

definition pick4 :: "Line list \<Rightarrow> 32 word \<Rightarrow> Line list" where
  "pick4 lineCluster x =
     (let indexes = GetSetBitIndexes x
      in [lineCluster ! (indexes ! 0), lineCluster ! (indexes ! 1),
          lineCluster ! (indexes ! 2), lineCluster ! (indexes ! 3)])"

definition range4 :: "Line list \<Rightarrow> real" where
  "range4 q = rho (q ! 3) - rho (q ! 0)"

definition evenlySpaced :: "Line list \<Rightarrow> bool" where
  "evenlySpaced q \<longleftrightarrow>
     (let mean = range4 q / 3;
          delta0 = rho (q ! 1) - rho (q ! 0);
          delta1 = rho (q ! 2) - rho (q ! 1);
          delta2 = rho (q ! 3) - rho (q ! 2)
      in \<bar>delta0 - mean\<bar> < DELTA_THRESHOLD \<and>
         \<bar>delta1 - mean\<bar> < DELTA_THRESHOLD \<and>
         \<bar>delta2 - mean\<bar> < DELTA_THRESHOLD)"

text \<open>
  What the loop body does with the four lines \<open>q\<close> of one combination; the state is
  \<open>(largestEvenlySpacedLinesRange, largestEvenlySpacedLines)\<close>.
\<close>

definition considerLines :: "Line list \<Rightarrow> real \<times> Line list \<Rightarrow> real \<times> Line list" where
  "considerLines q best =
     (if range4 q < fst best then best
      else if evenlySpaced q then (range4 q, q)
      else best)"

definition searchStep :: "Line list \<Rightarrow> nat \<Rightarrow> real \<times> Line list \<Rightarrow> real \<times> Line list" where
  "searchStep lineCluster x best =
     (if popcount (word_of_nat x) \<noteq> 4 then best
      else considerLines (pick4 lineCluster (word_of_nat x)) best)"

definition finalSubset :: "nat \<Rightarrow> 32 word" where
  "finalSubset n = push_bit (n - 4) 15"

definition searchCluster :: "Line list \<Rightarrow> Line list" where
  "searchCluster lineCluster =
     snd (fold (searchStep lineCluster)
            [0..<unat (finalSubset (length lineCluster) + 1)] (0, []))"

text \<open>The body of the loop over the clusters: the candidate axes one cluster adds.\<close>

definition clusterCandidate :: "Line list \<Rightarrow> Line list list" where
  "clusterCandidate lineCluster =
     (if length lineCluster < 4 then []
      else if length lineCluster > 32 then []
      else let largestEvenlySpacedLines = searchCluster lineCluster
           in if largestEvenlySpacedLines \<noteq> [] then [largestEvenlySpacedLines] else [])"

text \<open>The result is the pair of the clusters, sorted in place, and the candidate axes.\<close>

definition FindPossiblePuzzleLines :: "Line list list \<Rightarrow> Line list list \<times> Line list list" where
  "FindPossiblePuzzleLines lineClusters =
     (let sorted = map sortByRho lineClusters
      in (sorted, concat (map clusterCandidate sorted)))"

text \<open>
  The bit patterns that pass the population count test, and the combinations of four
  lines that they select, in the order of the enumeration.
\<close>

definition masks :: "nat \<Rightarrow> nat list" where
  "masks n = filter (\<lambda>x. popcount (word_of_nat x) = 4) [0..<unat (finalSubset n + 1)]"

definition combinations :: "Line list \<Rightarrow> Line list list" where
  "combinations lineCluster =
     map (\<lambda>x. pick4 lineCluster (word_of_nat x)) (masks (length lineCluster))"

section \<open>\<open>FindPuzzles\<close>\<close>

definition roughlyOrthogonal :: "(real \<Rightarrow> real \<Rightarrow> real) \<Rightarrow> Line list \<Rightarrow> Line list \<Rightarrow> bool" where
  "roughlyOrthogonal DifferenceTheta lines0 lines1 \<longleftrightarrow>
     \<bar>pi / 2 - DifferenceTheta (theta (lines0 ! 0)) (theta (lines1 ! 0))\<bar> < DELTA_THETA"

definition orderPair :: "Line list \<Rightarrow> Line list \<Rightarrow> Line list \<times> Line list" where
  "orderPair lines0 lines1 =
     (if cos (theta (lines0 ! 0)) > cos (theta (lines1 ! 0)) then (lines0, lines1)
      else (lines1, lines0))"

definition FindPuzzles ::
  "(real \<Rightarrow> real \<Rightarrow> real) \<Rightarrow> Line list list \<Rightarrow> (Line list \<times> Line list) list" where
  "FindPuzzles DifferenceTheta possiblePuzzleLineClusters =
     (if length possiblePuzzleLineClusters < 2 then []
      else concat (map (\<lambda>y. concat (map (\<lambda>x.
               let lines0 = possiblePuzzleLineClusters ! y;
                   lines1 = possiblePuzzleLineClusters ! x
               in if roughlyOrthogonal DifferenceTheta lines0 lines1
                  then [orderPair lines0 lines1] else [])
             [y + 1..<length possiblePuzzleLineClusters]))
           [0..<length possiblePuzzleLineClusters]))"

section \<open>\<open>PuzzleFinder::Find\<close>\<close>

text \<open>The scratch buffers of the detector instance.\<close>

record PuzzleFinder =
  lines :: "Line list"
  lineClusters :: "Line list list"
  possiblePuzzleLineClusters :: "Line list list"
  puzzleLines :: "(Line list \<times> Line list) list"

text \<open>
  The four stages. Each stage clears its output buffer before it writes, so the buffers
  after the stages do not depend on their contents before the call.
\<close>

definition runStages ::
  "(Line list \<Rightarrow> real) \<Rightarrow> (real \<Rightarrow> real \<Rightarrow> real) \<Rightarrow> 32 word \<Rightarrow> 32 word \<Rightarrow> Image \<Rightarrow> PuzzleFinder" where
  "runStages MeanTheta DifferenceTheta targetWidth targetHeight houghTransformFrame =
     (let ls = FindLines targetWidth targetHeight houghTransformFrame;
          cs = ClusterizeLinesByTheta MeanTheta DifferenceTheta ls;
          (sorted, possible) = FindPossiblePuzzleLines cs;
          puzzles = FindPuzzles DifferenceTheta possible
      in \<lparr>lines = ls, lineClusters = sorted,
          possiblePuzzleLineClusters = possible, puzzleLines = puzzles\<rparr>)"

text \<open>
  The two loops \<^verbatim>\<open>for(y = 0;y < 4;y += 3)\<close> and \<^verbatim>\<open>for(x = 0;x < 4;x += 3)\<close> run over
  the indexes 0 and 3. \<open>IntersectLines\<close> is defined outside the sources at hand and is a
  parameter: the point it leaves in its two output arguments.
\<close>

definition corners :: "(Line \<Rightarrow> Line \<Rightarrow> Point) \<Rightarrow> Line list \<Rightarrow> Line list \<Rightarrow> Point list" where
  "corners IntersectLines puzzleLines1 puzzleLines2 =
     concat (map (\<lambda>y. map (\<lambda>x. IntersectLines (puzzleLines1 ! x) (puzzleLines2 ! y)) [0, 3]) [0, 3])"

text \<open>
  \<open>Find\<close> takes the caller's point list and the detector, and returns the boolean, the
  point list after the call and the detector after the call.
\<close>

definition Find ::
  "(Line list \<Rightarrow> real) \<Rightarrow> (real \<Rightarrow> real \<Rightarrow> real) \<Rightarrow> (Line \<Rightarrow> Line \<Rightarrow> Point) \<Rightarrow>
   32 word \<Rightarrow> 32 word \<Rightarrow> Image \<Rightarrow> Point list \<Rightarrow> PuzzleFinder \<Rightarrow> bool \<times> Point list \<times> PuzzleFinder" where
  "Find MeanTheta DifferenceTheta IntersectLines targetWidth targetHeight houghTransformFrame
        puzzlePoints finder =
     (let finder' = runStages MeanTheta DifferenceTheta targetWidth targetHeight houghTransformFrame
      in if puzzleLines finder' = [] then (False, puzzlePoints, finder')
         else let puzzle = puzzleLines finder' ! 0
              in (True, corners IntersectLines (fst puzzle) (snd puzzle), finder'))"

section \<open>The geometry helpers, from the spec\<close>

text \<open>
  Modelled from the spec: \<open>MeanTheta\<close> is not part of the sources. The mean theta of a
  cluster is the arithmetic mean of its members' thetas, with no circular correction.
\<close>

definition MeanTheta_spec :: "Line list \<Rightarrow> real" where
  "MeanTheta_spec ls = sum_list (map theta ls) / real (length ls)"

text \<open>
  Modelled from the spec: \<open>DifferenceTheta\<close> is not part of the sources. It is the circular
  angular distance between two angles.
\<close>

definition DifferenceTheta_spec :: "real \<Rightarrow> real \<Rightarrow> real" where
  "DifferenceTheta_spec a b =
     (let d = fmod \<bar>a - b\<bar> (2 * pi) in if d > pi then 2 * pi - d else d)"

text \<open>
  Modelled from the spec: \<open>IntersectLines\<close> is not part of the sources. The intersection of
  two lines in Hesse normal form is a closed-form linear solve; the outputs keep their
  initial value 0 when the lines are parallel.
\<close>

definition IntersectLines_spec :: "Line \<Rightarrow> Line \<Rightarrow> Point" where
  "IntersectLines_spec l1 l2 =
     (let d = cos (theta l1) * sin (theta l2) - sin (theta l1) * cos (theta l2)
      in if d = 0 then \<lparr>px = 0, py = 0\<rparr>
         else \<lparr>px = (rho l1 * sin (theta l2) - rho l2 * sin (theta l1)) / d,
               py = (rho l2 * cos (theta l1) - rho l1 * cos (theta l2)) / d\<rparr>)"

section \<open>\<open>Game\<close> and \<open>CachedPuzzleSolver\<close>\<close>

text \<open>
  Reading or writing a \<open>std::vector\<close> outside its bounds is undefined behaviour; the model
  stops with a fault that names the vector and the index.
\<close>

datatype fault = DigitsIndexOutOfRange nat | StateIndexOutOfRange nat

text \<open>
  Game.h declares \<open>state\<close> as \<open>std::vector<unsigned char>\<close> and the constructor
  value-initialises it before calling \<open>Clear\<close>.
\<close>

record Game =
  state :: "8 word list"

definition Index :: "nat \<Rightarrow> nat \<Rightarrow> nat" where
  "Index x y = y * 9 + x"

definition Game_Clear :: "Game \<Rightarrow> Game" where
  "Game_Clear game = game\<lparr>state := map (\<lambda>_. 0) (state game)\<rparr>"

definition Game_new :: Game where
  "Game_new = Game_Clear \<lparr>state = []\<rparr>"

definition Game_Set :: "nat \<Rightarrow> nat \<Rightarrow> 8 word \<Rightarrow> Game \<Rightarrow> fault + bool \<times> Game" where
  "Game_Set x y v game =
     (if x \<ge> 9 \<or> y \<ge> 9 \<or> v > 9 then Inr (False, game)
      else if Index x y < length (state game)
      then Inr (True, game\<lparr>state := (state game)[Index x y := v]\<rparr>)
      else Inl (StateIndexOutOfRange (Index x y)))"

definition Game_Get :: "nat \<Rightarrow> nat \<Rightarrow> Game \<Rightarrow> fault + 8 word" where
  "Game_Get x y game =
     (if x \<ge> 9 \<or> y \<ge> 9 then Inr 0
      else if Index x y < length (state game) then Inr (state game ! Index x y)
      else Inl (StateIndexOutOfRange (Index x y)))"

text \<open>The cells \<open>(x, y)\<close> in the order of the two nested loops, \<open>y\<close> outside.\<close>

definition cells :: "(nat \<times> nat) list" where
  "cells = concat (map (\<lambda>y. map (\<lambda>x. (x, y)) [0..<9]) [0..<9])"

text \<open>
  The loops of \<open>DigitsToGame\<close>: \<open>digits[index]\<close> is read, unchecked, before \<open>Set\<close> is called.
\<close>

fun fillGame :: "8 word list \<Rightarrow> (nat \<times> nat) list \<Rightarrow> Game \<Rightarrow> fault + Game" where
  "fillGame digits [] game = Inr game"
| "fillGame digits ((x, y) # rest) game =
     (let index = y * 9 + x
      in if index \<ge> length digits then Inl (DigitsIndexOutOfRange index)
         else case Game_Set x y (digits ! index) game of
                Inl f \<Rightarrow> Inl f
              | Inr (_, game') \<Rightarrow> fillGame digits rest game')"

definition DigitsToGame :: "8 word list \<Rightarrow> fault + Game" where
  "DigitsToGame digits = fillGame digits cells Game_new"

text \<open>The loops that copy the solved grid into \<open>solution\<close>, after \<open>solution.clear()\<close>.\<close>

fun readSolution :: "(nat \<times> nat) list \<Rightarrow> Game \<Rightarrow> fault + 8 word list" where
  "readSolution [] game = Inr []"
| "readSolution ((x, y) # rest) game =
     (case Game_Get x y game of
        Inl f \<Rightarrow> Inl f
      | Inr digit \<Rightarrow> (case readSolution rest game of
                        Inl f \<Rightarrow> Inl f
                      | Inr ds \<Rightarrow> Inr (digit # ds)))"

text \<open>
  \<open>std::accumulate\<close> from the \<open>int\<close> 0 with a lambda whose parameter \<open>previous\<close> is an
  \<open>unsigned char\<close>: the running count is truncated to 8 bits at every step.
\<close>

definition nonZeroDigits :: "8 word list \<Rightarrow> int" where
  "nonZeroDigits digits =
     foldl (\<lambda>acc digit. uint (word_of_int acc :: 8 word) + (if digit > 0 then 1 else 0)) 0 digits"

record CachedPuzzleSolver =
  solvedPuzzles :: "8 word list \<rightharpoonup> 8 word list"
  lastUsedSolution :: "8 word list option"

text \<open>
  \<open>Solvable\<close> and the global \<open>Solve\<close> are defined outside the sources at hand and are
  parameters; \<open>Solve\<close> returns its boolean and the grid it leaves. The result is a fault, or
  the boolean, the output vector after the call and the solver after the call.
\<close>

definition CachedPuzzleSolver_Solve ::
  "(Game \<Rightarrow> bool) \<Rightarrow> (Game \<Rightarrow> bool \<times> Game) \<Rightarrow> CachedPuzzleSolver \<Rightarrow> 8 word list \<Rightarrow> 8 word list \<Rightarrow>
   fault + bool \<times> 8 word list \<times> CachedPuzzleSolver" where
  "CachedPuzzleSolver_Solve Solvable SolveGame solver digits solution =
     (case DigitsToGame digits of
        Inl f \<Rightarrow> Inl f
      | Inr game \<Rightarrow>
          if length digits \<noteq> 81 then Inr (False, solution, solver)
          else if list_ex (\<lambda>digit. digit > 9) digits then Inr (False, solution, solver)
          else if \<not> Solvable game then Inr (False, solution, solver)
          else if nonZeroDigits digits < 21 then Inr (False, solution, solver)
          else (case solvedPuzzles solver digits of
                  Some cached \<Rightarrow> Inr (True, cached, solver\<lparr>lastUsedSolution := Some digits\<rparr>)
                | None \<Rightarrow>
                    (case SolveGame game of
                       (False, game') \<Rightarrow> Inr (False, solution, solver)
                     | (True, game') \<Rightarrow>
                         (case readSolution cells game' of
                            Inl f \<Rightarrow> Inl f
                          | Inr solved \<Rightarrow>
                              Inr (True, solved,
                                   solver\<lparr>solvedPuzzles := (solvedPuzzles solver)(digits \<mapsto> solved),
                                          lastUsedSolution := Some digits\<rparr>)))))"

section \<open>Concrete inputs\<close>

text \<open>A 192 by 1 image without votes.\<close>

definition img192 :: Image where
  "img192 = \<lparr>width = 192, height = 1, data = replicate 576 0\<rparr>"

text \<open>A 2 by 1 image with the votes 2 and 1.\<close>

definition imgLow :: Image where
  "imgLow = \<lparr>width = 2, height = 1, data = [2, 0, 0, 1, 0, 0]\<rparr>"


text \<open>A 1 by 2 image with the vote 2 in the upper pixel.\<close>

definition imgFlip :: Image where
  "imgFlip = \<lparr>width = 1, height = 2, data = [2, 0, 0, 0, 0, 0]\<rparr>"

text \<open>A 1 by 1 image without votes.\<close>

definition imgZero :: Image where
  "imgZero = \<lparr>width = 1, height = 1, data = [0, 0, 0]\<rparr>"

text \<open>
  A 2 by 8 image with the vote 4 in the rows 4 to 7: four lines at theta 0 and four at
  theta \<open>pi / 2\<close>.
\<close>

definition imgGrid :: Image where
  "imgGrid = \<lparr>width = 2, height = 8,
     data = [0,0,0, 0,0,0,  0,0,0, 0,0,0,  0,0,0, 0,0,0,  0,0,0, 0,0,0,
             4,0,0, 4,0,0,  4,0,0, 4,0,0,  4,0,0, 4,0,0,  4,0,0, 4,0,0]\<rparr>"


text \<open>A detector whose scratch buffers are empty.\<close>

definition emptyFinder :: PuzzleFinder where
  "emptyFinder = \<lparr>lines = [], lineClusters = [], possiblePuzzleLineClusters = [], puzzleLines = []\<rparr>"



definition gridLines :: "Line list" where
  "gridLines = [\<lparr>theta = 0, rho = 0\<rparr>, \<lparr>theta = pi / 2, rho = 0\<rparr>,
    \<lparr>theta = 0, rho = 1 / 4\<rparr>, \<lparr>theta = pi / 2, rho = 1 / 4\<rparr>,
    \<lparr>theta = 0, rho = 1 / 2\<rparr>, \<lparr>theta = pi / 2, rho = 1 / 2\<rparr>,
    \<lparr>theta = 0, rho = 3 / 4\<rparr>, \<lparr>theta = pi / 2, rho = 3 / 4\<rparr>]"

definition axisH :: "Line list" where
  "axisH = [\<lparr>theta = 0, rho = 0\<rparr>, \<lparr>theta = 0, rho = 1 / 4\<rparr>,
            \<lparr>theta = 0, rho = 1 / 2\<rparr>, \<lparr>theta = 0, rho = 3 / 4\<rparr>]"

definition axisV :: "Line list" where
  "axisV = [\<lparr>theta = pi / 2, rho = 0\<rparr>, \<lparr>theta = pi / 2, rho = 1 / 4\<rparr>,
            \<lparr>theta = pi / 2, rho = 1 / 2\<rparr>, \<lparr>theta = pi / 2, rho = 3 / 4\<rparr>]"



section \<open>The neighbourhood radius\<close>

lemma lround_nat_div96: "lround (real n / 96) = (int n + 48) div 96"
proof -
  have "\<lfloor>real n / 96 + 1 / 2\<rfloor> = \<lfloor>real_of_int (int n + 48) / real_of_int 96\<rfloor>"
    by (simp add: field_simps)
  also have "\<dots> = (int n + 48) div 96"
    by (rule floor_divide_of_int_eq)
  finally show ?thesis by (simp add: lround_def)
qed

lemma min_div96: "min 1 ((int n + 48) div 96) = (if n < 48 then 0 else 1)"
  by (cases "n < 48") auto

lemma radius_cases:
  "radius img = (if unat (max (width img) (height img)) < 48 then 0 else 1)"
  unfolding radius_def lround_nat_div96 by (rule min_div96)

text \<open>
  Claim C3: the radius of the peak extractor should be
  \<open>max(1, round(max(width, height) / 96))\<close>, which is 2 for a 192 by 1 image. The source
  takes the minimum with 1 instead: on that image the radius is 1, and it is never more
  than 1.
\<close>

theorem radius_capped_at_one:
  "radius img192 = 1 \<and>
   max 1 (lround (real (unat (max (width img192) (height img192))) / 96)) = 2 \<and>
   wf_Image img192 \<and> radius img \<le> 1"
  by (simp add: radius_def img192_def lround_def wf_Image_def)

section \<open>Properties of the pixel loop\<close>

lemma scanRow_iff:
  "scanRow img v x y ny nxs \<longleftrightarrow>
     (\<forall>nx\<in>set nxs. (nx \<noteq> 0 \<or> ny \<noteq> 0) \<longrightarrow>
        ExtractValue img (x + word_of_int nx) (y + word_of_int ny) \<le> v)"
  by (induction nxs) (auto simp: not_less)

lemma scanWindow_iff:
  "scanWindow img v x y nys nxs \<longleftrightarrow> (\<forall>ny\<in>set nys. scanRow img v x y ny nxs)"
  by (induction nys) auto

lemma isPeak_iff:
  "isPeak img x y \<longleftrightarrow>
     (\<forall>ny\<in>{- radius img..radius img}. \<forall>nx\<in>{- radius img..radius img}.
        (nx \<noteq> 0 \<or> ny \<noteq> 0) \<longrightarrow>
        ExtractValue img (x + word_of_int nx) (y + word_of_int ny) \<le> ExtractValue img x y)"
  by (simp add: isPeak_def scanWindow_iff scanRow_iff)

lemma set_word_range: "set (map word_of_nat [0..<unat (w :: 32 word)]) = {x. x < w}"
proof (intro set_eqI iffI)
  fix x :: "32 word"
  assume "x \<in> set (map word_of_nat [0..<unat w])"
  then obtain n where n: "n < unat w" "x = word_of_nat n" by auto
  have "unat x = n" using n by (simp add: le_unat_uoi [of n w])
  then show "x \<in> {x. x < w}" using n(1) by (simp add: word_less_nat_alt)
next
  fix x :: "32 word"
  assume "x \<in> {x. x < w}"
  then have "unat x < unat w" by (simp add: word_less_nat_alt)
  moreover have "x = word_of_nat (unat x)" by simp
  ultimately show "x \<in> set (map word_of_nat [0..<unat w])"
    by (metis (no_types, lifting) atLeastLessThan_iff image_eqI list.set_map set_upt zero_le)
qed

lemma set_FindLines:
  "set (FindLines tw th img) =
     (if minimumValue img = 0 then {}
      else {peakLine tw th img x y | x y.
              x < width img \<and> y < height img \<and> \<not> belowMinimum img x y \<and> isPeak img x y})"
proof (cases "minimumValue img = 0")
  case True
  then show ?thesis by (simp add: FindLines_def)
next
  case False
  have "set (FindLines tw th img) =
          (\<Union>y\<in>{y. y < height img}. \<Union>x\<in>{x. x < width img}. set (scanPixel tw th img x y))"
    using False unfolding FindLines_def set_word_range [symmetric] by simp
  also have "\<dots> = {peakLine tw th img x y | x y.
              x < width img \<and> y < height img \<and> \<not> belowMinimum img x y \<and> isPeak img x y}"
    unfolding scanPixel_def by (auto split: if_splits) blast+
  finally show ?thesis using False by simp
qed

lemma unat_minimumValue: "unat (minimumValue img) = unat (maximumValue img) * 3 div 4"
proof -
  have "unat (maximumValue img) < 2 ^ 16"
    using unsigned_less [of "maximumValue img", where ?'a = nat] by simp
  then have "unat (maximumValue img) * 3 div 4 < 2 ^ 16" by simp
  then show ?thesis
    unfolding minimumValue_def by (simp add: unat_of_nat)
qed

lemma belowMinimum_iff:
  "belowMinimum img x y \<longleftrightarrow> unat (ExtractValue img x y) < unat (maximumValue img) * 3 div 4"
  by (simp add: belowMinimum_def word_less_nat_alt unat_minimumValue)

lemma minimumValue_zero_iff: "minimumValue img = 0 \<longleftrightarrow> unat (maximumValue img) * 3 div 4 = 0"
  using unat_minimumValue [of img] by (metis unat_eq_zero)

lemma FindLines_no_signal: "unat (maximumValue img) * 3 div 4 = 0 \<Longrightarrow> FindLines tw th img = []"
  by (simp add: FindLines_def minimumValue_zero_iff)

subsection \<open>Reads of a well-formed image are in range\<close>


lemma unat_times3:
  assumes "3 * n < 2 ^ 32"
  shows "unat ((word_of_nat n :: 32 word) * 3) = 3 * n"
proof -
  have "n < 2 ^ 32" using assms by simp
  then have "unat (word_of_nat n :: 32 word) = n" by (simp add: unat_of_nat)
  then have "unat ((word_of_nat n :: 32 word) * 3) = (n * 3) mod 2 ^ 32"
    by (simp add: unat_word_ariths)
  then show ?thesis using assms by (simp add: mult.commute)
qed


lemma pixel_read_in_range:
  assumes "wf_Image img" and "x < width img" and "y < height img"
  shows "unat ((y * width img + x) * 3) + 1 < length (data img)"
proof -
  let ?w = "unat (width img)" and ?h = "unat (height img)"
  have xw: "unat x < ?w" and yh: "unat y < ?h"
    using assms by (simp_all add: word_less_nat_alt)
  have bound: "3 * ?w * ?h < 2 ^ 32" and len: "length (data img) = 3 * ?w * ?h"
    using assms(1) by (simp_all add: wf_Image_def)
  have "unat y * ?w + unat x < (unat y + 1) * ?w" using xw by simp
  also have "\<dots> \<le> ?h * ?w" using yh by (intro mult_le_mono1) simp
  finally have lt: "unat y * ?w + unat x < ?w * ?h" by (simp add: mult.commute)
  then have lt3: "3 * (unat y * ?w + unat x) + 3 \<le> 3 * ?w * ?h" by simp
  have "y * width img + x = word_of_nat (unat y * ?w + unat x)" by simp
  then have "unat ((y * width img + x) * 3) = 3 * (unat y * ?w + unat x)"
    using unat_times3 [of "unat y * ?w + unat x"] lt3 bound by simp
  then show ?thesis using lt3 len by simp
qed




lemma fmod_small: "0 \<le> a \<Longrightarrow> a < b \<Longrightarrow> fmod a b = a"
  by (simp add: fmod_def floor_eq_iff)

lemma upt_word_1: "map word_of_nat [0..<Suc 0] = [0 :: 32 word]"
  by simp

lemma upt_word_2: "map word_of_nat [0..<2] = [0, 1 :: 32 word]"
  by (simp add: upt_rec)

lemma upt_word_8: "map word_of_nat [0..<8] = [0, 1, 2, 3, 4, 5, 6, 7 :: 32 word]"
  by (simp add: upt_rec)

section \<open>The acceptance threshold\<close>

text \<open>
  Claim C5, as amended: the acceptance threshold is three quarters of the largest vote
  rounded down, a pixel is below it exactly when its vote is smaller than that number, the
  extractor returns no line when the threshold is 0 (in particular when the largest vote
  is 0), and every line of the result comes from a pixel of the image whose vote is at
  least the threshold.
\<close>

theorem minimum_is_truncated_three_quarters:
  "unat (minimumValue img) = unat (maximumValue img) * 3 div 4 \<and>
   (belowMinimum img x y \<longleftrightarrow> unat (ExtractValue img x y) < unat (maximumValue img) * 3 div 4) \<and>
   (unat (maximumValue img) * 3 div 4 = 0 \<longrightarrow> FindLines tw th img = []) \<and>
   (maximumValue img = 0 \<longrightarrow> FindLines tw th img = []) \<and>
   (l \<in> set (FindLines tw th img) \<longrightarrow>
      (\<exists>x y. x < width img \<and> y < height img \<and> l = peakLine tw th img x y \<and>
             unat (maximumValue img) * 3 div 4 \<le> unat (ExtractValue img x y)))"
proof (intro conjI impI)
  show "unat (minimumValue img) = unat (maximumValue img) * 3 div 4"
    by (rule unat_minimumValue)
  show "belowMinimum img x y \<longleftrightarrow> unat (ExtractValue img x y) < unat (maximumValue img) * 3 div 4"
    by (rule belowMinimum_iff)
  show "FindLines tw th img = []" if "unat (maximumValue img) * 3 div 4 = 0"
    using that by (rule FindLines_no_signal)
  show "FindLines tw th img = []" if "maximumValue img = 0"
    using that by (simp add: FindLines_no_signal)
  show "\<exists>x y. x < width img \<and> y < height img \<and> l = peakLine tw th img x y \<and>
             unat (maximumValue img) * 3 div 4 \<le> unat (ExtractValue img x y)"
    if "l \<in> set (FindLines tw th img)"
    using that unfolding set_FindLines belowMinimum_iff
    by (auto split: if_splits simp: not_less)
qed

lemma imgLow_eval:
  "maximumValue imgLow = 2" "minimumValue imgLow = 1" "radius imgLow = 0"
  "ExtractValue imgLow 0 0 = 2" "ExtractValue imgLow 1 0 = 1"
  "\<not> belowMinimum imgLow 0 0" "\<not> belowMinimum imgLow 1 0"
  by code_simp+

lemma isPeak_radius_0: "radius img = 0 \<Longrightarrow> isPeak img x y"
  by (simp add: isPeak_iff)

lemma imgLow_FindLines:
  "FindLines 1 0 imgLow = [peakLine 1 0 imgLow 0 0, peakLine 1 0 imgLow 1 0]"
  unfolding FindLines_def
  by (simp add: imgLow_eval isPeak_radius_0 scanPixel_def
        imgLow_def [THEN arg_cong [of _ _ width]] imgLow_def [THEN arg_cong [of _ _ height]]
        upt_word_2)

text \<open>
  Claim C5, as stated, fails on the 2 by 1 image with the votes 2 and 1: the pixel with the
  vote 1 passes the threshold test and yields a line, though 1 is less than 0.75 times 2,
  and the threshold 1 is not 0.75 times 2.
\<close>

theorem threshold_counterexample:
  "\<not> belowMinimum imgLow 1 0 \<and>
   peakLine 1 0 imgLow 1 0 \<in> set (FindLines 1 0 imgLow) \<and>
   real (unat (ExtractValue imgLow 1 0)) < 0.75 * real (unat (maximumValue imgLow)) \<and>
   real (unat (minimumValue imgLow)) \<noteq> 0.75 * real (unat (maximumValue imgLow))"
  by (simp add: imgLow_eval imgLow_FindLines)

lemma imgZero_eval: "maximumValue imgZero = 0"
  by code_simp

theorem minimum_is_truncated_three_quarters_witness:
  "unat (minimumValue imgLow) = 1 \<and>
   \<not> belowMinimum imgLow 1 0 \<and>
   FindLines 1 0 imgZero = [] \<and>
   (\<exists>x y. x < width imgLow \<and> y < height imgLow \<and> peakLine 1 0 imgLow 1 0 = peakLine 1 0 imgLow x y \<and>
             unat (maximumValue imgLow) * 3 div 4 \<le> unat (ExtractValue imgLow x y))"
  using minimum_is_truncated_three_quarters [of imgLow 1 0 1 0 "peakLine 1 0 imgLow 1 0"]
    minimum_is_truncated_three_quarters [of imgZero 0 0 1 0 "peakLine 1 0 imgZero 0 0"]
  by (simp add: imgLow_eval imgZero_eval imgLow_FindLines)

section \<open>The peak test\<close>





section \<open>The normal form of the stored lines\<close>





lemma imgFlip_eval:
  "minimumValue imgFlip = 1" "radius imgFlip = 0"
  "\<not> belowMinimum imgFlip 0 0" "belowMinimum imgFlip 0 1"
  by code_simp+

lemma imgFlip_FindLines: "FindLines 1 0 imgFlip = [peakLine 1 0 imgFlip 0 0]"
  unfolding FindLines_def
  by (simp add: imgFlip_eval isPeak_radius_0 scanPixel_def
        imgFlip_def [THEN arg_cong [of _ _ width]] imgFlip_def [THEN arg_cong [of _ _ height]]
        upt_word_2)





section \<open>Clustering\<close>














lemma fmod_full_turn: "fmod (2 * pi) (2 * pi) = 0"
  using pi_gt_zero by (simp add: fmod_def)

lemma DifferenceTheta_spec_eval:
  "DifferenceTheta_spec 0 0 = 0"
  "DifferenceTheta_spec (pi / 2) (pi / 2) = 0"
  "DifferenceTheta_spec (pi / 2) 0 = pi / 2"
  "DifferenceTheta_spec 0 (pi / 2) = pi / 2"
  "DifferenceTheta_spec pi (pi / 2) = pi / 2"
  "DifferenceTheta_spec (3 * pi / 2) 0 = pi / 2"
  "DifferenceTheta_spec pi 0 = pi"
  using pi_gt_zero by (simp_all add: DifferenceTheta_spec_def fmod_small Let_def)

lemma fmod_eval: "fmod pi (2 * pi) = pi" "fmod (3 * pi / 2) (2 * pi) = 3 * pi / 2"
  using pi_gt_zero by (simp_all add: fmod_small)

lemmas cluster_eval = addLine_def MeanTheta_spec_def DELTA_THETA_def Let_def
  DifferenceTheta_spec_eval fmod_eval fmod_full_turn



section \<open>The search for four evenly spaced lines\<close>

lemma fold_searchStep:
  "fold (searchStep c) xs s =
   fold considerLines
     (map (\<lambda>x. pick4 c (word_of_nat x)) (filter (\<lambda>x. popcount (word_of_nat x) = 4) xs)) s"
  by (induction xs arbitrary: s) (simp_all add: searchStep_def)

lemma searchCluster_combinations:
  "searchCluster c = snd (fold considerLines (combinations c) (0, []))"
  by (simp add: searchCluster_def combinations_def masks_def fold_searchStep)

lemma length_pick4: "length (pick4 c x) = 4"
  by (simp add: pick4_def Let_def)

lemma combinations_length: "q \<in> set (combinations c) \<Longrightarrow> length q = 4"
  by (auto simp: combinations_def length_pick4)

lemma combinations_nonempty: "\<forall>q\<in>set (combinations c). q \<noteq> []"
  using combinations_length by fastforce

text \<open>
  The invariant of the loop over the combinations: either nothing was kept and no
  combination so far was evenly spaced with a range of at least 0, or the kept combination
  is evenly spaced, no evenly spaced combination before it has a larger range and every
  evenly spaced combination after it has a smaller range.
\<close>

lemma fold_considerLines_inv:
  assumes "\<forall>q\<in>set qs. q \<noteq> []"
  shows "(fold considerLines qs (0, []) = (0, []) \<and>
            (\<forall>q\<in>set qs. \<not> (evenlySpaced q \<and> 0 \<le> range4 q))) \<or>
         (\<exists>pre best post. qs = pre @ best # post \<and>
            fold considerLines qs (0, []) = (range4 best, best) \<and>
            evenlySpaced best \<and> 0 \<le> range4 best \<and>
            (\<forall>q\<in>set pre. evenlySpaced q \<longrightarrow> range4 q \<le> range4 best) \<and>
            (\<forall>q\<in>set post. evenlySpaced q \<longrightarrow> range4 q < range4 best))"
  using assms
proof (induction qs rule: rev_induct)
  case Nil
  then show ?case by simp
next
  case (snoc q qs)
  then have ne: "\<forall>q\<in>set qs. q \<noteq> []" by simp
  from snoc.IH [OF ne] show ?case
  proof (elim disjE conjE exE)
    assume st: "fold considerLines qs (0, []) = (0, [])"
      and none: "\<forall>q\<in>set qs. \<not> (evenlySpaced q \<and> 0 \<le> range4 q)"
    show ?thesis
    proof (cases "evenlySpaced q \<and> 0 \<le> range4 q")
      case True
      then have "fold considerLines (qs @ [q]) (0, []) = (range4 q, q)"
        using st by (simp add: considerLines_def)
      moreover have "\<forall>p\<in>set qs. evenlySpaced p \<longrightarrow> range4 p \<le> range4 q"
        using none True by force
      ultimately have "\<exists>pre best post. qs @ [q] = pre @ best # post \<and>
            fold considerLines (qs @ [q]) (0, []) = (range4 best, best) \<and>
            evenlySpaced best \<and> 0 \<le> range4 best \<and>
            (\<forall>q\<in>set pre. evenlySpaced q \<longrightarrow> range4 q \<le> range4 best) \<and>
            (\<forall>q\<in>set post. evenlySpaced q \<longrightarrow> range4 q < range4 best)"
        using True by (intro exI [of _ qs] exI [of _ q] exI [of _ "[]"]) simp
      then show ?thesis ..
    next
      case False
      then have "fold considerLines (qs @ [q]) (0, []) = (0, [])"
        using st by (auto simp: considerLines_def)
      then show ?thesis using none False by auto
    qed
  next
    fix pre best post
    assume split: "qs = pre @ best # post"
      and st: "fold considerLines qs (0, []) = (range4 best, best)"
      and ev: "evenlySpaced best" and nn: "0 \<le> range4 best"
      and pre: "\<forall>q\<in>set pre. evenlySpaced q \<longrightarrow> range4 q \<le> range4 best"
      and post: "\<forall>q\<in>set post. evenlySpaced q \<longrightarrow> range4 q < range4 best"
    show ?thesis
    proof (cases "evenlySpaced q \<and> range4 best \<le> range4 q")
      case True
      then have "fold considerLines (qs @ [q]) (0, []) = (range4 q, q)"
        using st by (simp add: considerLines_def)
      moreover have "\<forall>p\<in>set qs. evenlySpaced p \<longrightarrow> range4 p \<le> range4 q"
        using split pre post True by fastforce
      moreover have "0 \<le> range4 q" using nn True by simp
      ultimately have "\<exists>pre best post. qs @ [q] = pre @ best # post \<and>
            fold considerLines (qs @ [q]) (0, []) = (range4 best, best) \<and>
            evenlySpaced best \<and> 0 \<le> range4 best \<and>
            (\<forall>q\<in>set pre. evenlySpaced q \<longrightarrow> range4 q \<le> range4 best) \<and>
            (\<forall>q\<in>set post. evenlySpaced q \<longrightarrow> range4 q < range4 best)"
        using True by (intro exI [of _ qs] exI [of _ q] exI [of _ "[]"]) simp
      then show ?thesis ..
    next
      case False
      then have "fold considerLines (qs @ [q]) (0, []) = (range4 best, best)"
        using st by (auto simp: considerLines_def)
      moreover have "qs @ [q] = pre @ best # (post @ [q])" using split by simp
      moreover have "\<forall>p\<in>set (post @ [q]). evenlySpaced p \<longrightarrow> range4 p < range4 best"
        using post False by auto
      ultimately have "\<exists>pre best post. qs @ [q] = pre @ best # post \<and>
            fold considerLines (qs @ [q]) (0, []) = (range4 best, best) \<and>
            evenlySpaced best \<and> 0 \<le> range4 best \<and>
            (\<forall>q\<in>set pre. evenlySpaced q \<longrightarrow> range4 q \<le> range4 best) \<and>
            (\<forall>q\<in>set post. evenlySpaced q \<longrightarrow> range4 q < range4 best)"
        using ev nn pre by (intro exI [of _ pre] exI [of _ best] exI [of _ "post @ [q]"]) simp
      then show ?thesis ..
    qed
  qed
qed

lemma searchCluster_cases:
  "(searchCluster c = [] \<and>
      (\<forall>q\<in>set (combinations c). \<not> (evenlySpaced q \<and> 0 \<le> range4 q))) \<or>
   (\<exists>pre best post. combinations c = pre @ best # post \<and> searchCluster c = best \<and>
      evenlySpaced best \<and> 0 \<le> range4 best \<and>
      (\<forall>q\<in>set pre. evenlySpaced q \<longrightarrow> range4 q \<le> range4 best) \<and>
      (\<forall>q\<in>set post. evenlySpaced q \<longrightarrow> range4 q < range4 best))"
  using fold_considerLines_inv [OF combinations_nonempty, of c]
  unfolding searchCluster_combinations
  by (elim disjE conjE exE) (simp, metis snd_conv)

lemma searchCluster_length: "searchCluster c = [] \<or> length (searchCluster c) = 4"
proof -
  from searchCluster_cases [of c] show ?thesis
  proof (elim disjE conjE exE)
    fix pre best post
    assume "combinations c = pre @ best # post" "searchCluster c = best"
    then have "searchCluster c \<in> set (combinations c)" by simp
    then show ?thesis by (simp add: combinations_length)
  qed simp
qed




lemma masks_eval: "masks 4 = [15]" "masks 5 = [15, 23, 27, 29, 30]"
  by code_simp+

lemma masks_Suc:
  "masks (Suc (Suc (Suc (Suc 0)))) = [15]"
  "masks (Suc (Suc (Suc (Suc (Suc 0))))) = [15, 23, 27, 29, 30]"
proof -
  have e4: "Suc (Suc (Suc (Suc 0))) = 4" by simp
  have e5: "Suc (Suc (Suc (Suc (Suc 0)))) = 5" by simp
  show "masks (Suc (Suc (Suc (Suc 0)))) = [15]"
    unfolding e4 by (rule masks_eval)
  show "masks (Suc (Suc (Suc (Suc (Suc 0))))) = [15, 23, 27, 29, 30]"
    unfolding e5 by (rule masks_eval)
qed

lemma GetSetBitIndexes_eval:
  "GetSetBitIndexes 15 = [0, 1, 2, 3]" "GetSetBitIndexes 23 = [0, 1, 2, 4]"
  "GetSetBitIndexes 27 = [0, 1, 3, 4]" "GetSetBitIndexes 29 = [0, 2, 3, 4]"
  "GetSetBitIndexes 30 = [1, 2, 3, 4]"
  by code_simp+

lemma combinations_4: "combinations [l0, l1, l2, l3] = [[l0, l1, l2, l3]]"
  by (simp add: combinations_def masks_Suc pick4_def GetSetBitIndexes_eval)


lemmas search_eval = searchCluster_combinations clusterCandidate_def considerLines_def
  range4_def evenlySpaced_def DELTA_THRESHOLD_def Let_def






subsection \<open>The enumerated indexes stay inside the cluster\<close>

lemma and_bit_pos: "(v :: 32 word) AND 2 ^ i > 0 \<longleftrightarrow> bit v i"
proof -
  have "v AND 2 ^ i \<noteq> 0 \<longleftrightarrow> bit v i"
    by (simp add: and_exp_eq_0_iff_not_bit)
  then show ?thesis by (simp add: word_greater_zero_iff)
qed

lemma unat_word_of_nat_32: "k < 2 ^ 32 \<Longrightarrow> unat (word_of_nat k :: 32 word) = k"
  by (simp add: unat_of_nat)

lemma unat_finalSubset:
  assumes "4 \<le> n" and "n \<le> 32"
  shows "unat (finalSubset n + 1) = 15 * 2 ^ (n - 4) + 1"
proof -
  have le: "n - 4 \<le> 28" using assms by simp
  have "(2 :: nat) ^ (n - 4) \<le> 2 ^ 28" using le by (intro power_increasing) simp_all
  then have b: "15 * (2 :: nat) ^ (n - 4) + 1 < 2 ^ 32" by simp
  have eq: "finalSubset n + 1 = (word_of_nat (15 * 2 ^ (n - 4) + 1) :: 32 word)"
    by (simp add: finalSubset_def push_bit_eq_mult)
  show ?thesis unfolding eq by (rule unat_word_of_nat_32 [OF b])
qed

lemma set_bits_in_range:
  assumes "4 \<le> n" and "n \<le> 32" and "m < unat (finalSubset n + 1)"
    and "i \<in> set (GetSetBitIndexes (word_of_nat m))"
  shows "i < n"
proof (rule ccontr)
  assume "\<not> i < n"
  then have ni: "n \<le> i" by simp
  have "(2 :: nat) ^ n = 2 ^ (4 + (n - 4))" using assms(1) by simp
  also have "\<dots> = 16 * 2 ^ (n - 4)" by (simp only: power_add) simp
  finally have p: "(2 :: nat) ^ n = 16 * 2 ^ (n - 4)" .
  have "m \<le> 15 * 2 ^ (n - 4)" using assms(1-3) by (simp add: unat_finalSubset)
  also have "\<dots> < 16 * 2 ^ (n - 4)" by simp
  finally have "m < 2 ^ n" using p by simp
  also have "\<dots> \<le> 2 ^ i" using ni by (intro power_increasing) simp_all
  finally have "m div 2 ^ i = 0" by simp
  then have "\<not> bit m i" by (simp add: bit_iff_odd)
  then have "\<not> bit (word_of_nat m :: 32 word) i" by (simp add: bit_of_nat_iff)
  moreover have "bit (word_of_nat m :: 32 word) i"
  proof -
    have "i \<in> set (filter (\<lambda>x. (word_of_nat m :: 32 word) AND push_bit x 1 > 0) [0..<32])"
      using assms(4) unfolding GetSetBitIndexes_def by (rule in_set_takeD)
    then show ?thesis by (simp add: and_bit_pos)
  qed
  ultimately show False by contradiction
qed


lemma GetSetBitIndexes_popcount:
  assumes "popcount v = 4"
  shows "GetSetBitIndexes v = filter (bit v) [0..<32]"
proof -
  have "filter (\<lambda>x. v AND push_bit x 1 > 0) [0..<32] = filter (bit v) [0..<32]"
    by (simp add: and_bit_pos)
  then show ?thesis using assms by (simp add: GetSetBitIndexes_def popcount_def)
qed

text \<open>
  For a cluster of 4 to 32 lines, every bit pattern that the search considers selects four
  indexes below the size of the cluster: the reads \<open>lineCluster[indexes[k]]\<close> are in range.
\<close>

lemma combination_indexes_in_range:
  assumes "4 \<le> n" and "n \<le> 32" and "m \<in> set (masks n)"
  shows "length (GetSetBitIndexes (word_of_nat m)) = 4 \<and>
         (\<forall>i\<in>set (GetSetBitIndexes (word_of_nat m)). i < n)"
proof -
  have m: "m < unat (finalSubset n + 1)" and pc: "popcount (word_of_nat m) = 4"
    using assms(3) by (simp_all add: masks_def)
  have "length (GetSetBitIndexes (word_of_nat m)) = 4"
    using pc by (simp add: GetSetBitIndexes_popcount) (simp add: popcount_def)
  moreover have "\<forall>i\<in>set (GetSetBitIndexes (word_of_nat m)). i < n"
    using set_bits_in_range [OF assms(1,2) m] by blast
  ultimately show ?thesis by blast
qed

section \<open>Pairing the candidate axes\<close>

lemma FindPuzzles_mem:
  "p \<in> set (FindPuzzles DT axes) \<longleftrightarrow>
     (\<exists>y x. y < x \<and> x < length axes \<and> roughlyOrthogonal DT (axes ! y) (axes ! x) \<and>
            p = orderPair (axes ! y) (axes ! x))"
proof (cases "length axes < 2")
  case True
  then have "FindPuzzles DT axes = []" by (simp add: FindPuzzles_def)
  moreover have "\<not> (y < x \<and> x < length axes)" for x y using True by auto
  ultimately show ?thesis by auto
next
  case False
  have "p \<in> set (FindPuzzles DT axes) \<longleftrightarrow>
      (\<exists>y\<in>{0..<length axes}. \<exists>x\<in>{Suc y..<length axes}.
          roughlyOrthogonal DT (axes ! y) (axes ! x) \<and> p = orderPair (axes ! y) (axes ! x))"
    using False by (auto simp: FindPuzzles_def Let_def split: if_splits)
  also have "\<dots> \<longleftrightarrow> (\<exists>y x. y < x \<and> x < length axes \<and>
      roughlyOrthogonal DT (axes ! y) (axes ! x) \<and> p = orderPair (axes ! y) (axes ! x))"
  proof
    assume "\<exists>y\<in>{0..<length axes}. \<exists>x\<in>{Suc y..<length axes}.
          roughlyOrthogonal DT (axes ! y) (axes ! x) \<and> p = orderPair (axes ! y) (axes ! x)"
    then obtain y x where "Suc y \<le> x" "x < length axes"
      "roughlyOrthogonal DT (axes ! y) (axes ! x)" "p = orderPair (axes ! y) (axes ! x)"
      by auto
    then show "\<exists>y x. y < x \<and> x < length axes \<and>
      roughlyOrthogonal DT (axes ! y) (axes ! x) \<and> p = orderPair (axes ! y) (axes ! x)"
      by (intro exI [of _ y] exI [of _ x]) simp
  next
    assume "\<exists>y x. y < x \<and> x < length axes \<and>
      roughlyOrthogonal DT (axes ! y) (axes ! x) \<and> p = orderPair (axes ! y) (axes ! x)"
    then obtain y x where yx: "y < x" "x < length axes"
      "roughlyOrthogonal DT (axes ! y) (axes ! x)" "p = orderPair (axes ! y) (axes ! x)"
      by blast
    then have "y \<in> {0..<length axes}" "x \<in> {Suc y..<length axes}" by simp_all
    then show "\<exists>y\<in>{0..<length axes}. \<exists>x\<in>{Suc y..<length axes}.
          roughlyOrthogonal DT (axes ! y) (axes ! x) \<and> p = orderPair (axes ! y) (axes ! x)"
      using yx(3,4) by blast
  qed
  finally show ?thesis .
qed


lemma orderPair_cos:
  "cos (theta (snd (orderPair a b) ! 0)) \<le> cos (theta (fst (orderPair a b) ! 0))"
  by (simp add: orderPair_def)

lemma orderPair_members: "orderPair a b = (a, b) \<or> orderPair a b = (b, a)"
  by (simp add: orderPair_def)

lemma candidate_length:
  "a \<in> set (snd (FindPossiblePuzzleLines cs)) \<Longrightarrow> length a = 4"
proof -
  assume "a \<in> set (snd (FindPossiblePuzzleLines cs))"
  then obtain c where "a \<in> set (clusterCandidate c)"
    by (auto simp: FindPossiblePuzzleLines_def Let_def)
  then have "a = searchCluster c" "searchCluster c \<noteq> []"
    by (auto simp: clusterCandidate_def Let_def split: if_splits)
  then show ?thesis using searchCluster_length [of c] by simp
qed

text \<open>
  Claim C8: every pair that \<open>FindPuzzles\<close> returns is made of two of the candidate axes, at
  positions \<open>y < x\<close>, whose circular angular distance of thetas is within \<open>pi / 12\<close> of
  \<open>pi / 2\<close>, and the cosine of the theta of its first axis is at least the cosine of the theta
  of its second axis. The theta of an axis is that of its first line; the axes that
  \<open>FindPossiblePuzzleLines\<close> produces have four lines each.
\<close>

theorem more_horizontal_axis_first:
  "(p \<in> set (FindPuzzles DT axes) \<longrightarrow>
      cos (theta (snd p ! 0)) \<le> cos (theta (fst p ! 0)) \<and>
      (\<exists>y x. y < x \<and> x < length axes \<and>
         \<bar>pi / 2 - DT (theta (axes ! y ! 0)) (theta (axes ! x ! 0))\<bar> < pi / 12 \<and>
         (p = (axes ! y, axes ! x) \<or> p = (axes ! x, axes ! y)))) \<and>
   (a \<in> set (snd (FindPossiblePuzzleLines cs)) \<longrightarrow> length a = 4)"
proof (intro conjI impI)
  assume "p \<in> set (FindPuzzles DT axes)"
  then obtain y x where yx: "y < x" "x < length axes"
    "roughlyOrthogonal DT (axes ! y) (axes ! x)" "p = orderPair (axes ! y) (axes ! x)"
    unfolding FindPuzzles_mem by blast
  show "cos (theta (snd p ! 0)) \<le> cos (theta (fst p ! 0))"
    unfolding yx(4) by (rule orderPair_cos)
  show "\<exists>y x. y < x \<and> x < length axes \<and>
         \<bar>pi / 2 - DT (theta (axes ! y ! 0)) (theta (axes ! x ! 0))\<bar> < pi / 12 \<and>
         (p = (axes ! y, axes ! x) \<or> p = (axes ! x, axes ! y))"
    using yx orderPair_members [of "axes ! y" "axes ! x"]
    unfolding roughlyOrthogonal_def DELTA_THETA_def by blast
next
  assume "a \<in> set (snd (FindPossiblePuzzleLines cs))"
  then show "length a = 4" by (rule candidate_length)
qed

lemma axis_theta: "theta (axisH ! 0) = 0" "theta (axisV ! 0) = pi / 2"
  by (simp_all add: axisH_def axisV_def)

lemma grid_FindPuzzles:
  "FindPuzzles DifferenceTheta_spec [axisH, axisV] = [(axisH, axisV)]"
  "FindPuzzles DifferenceTheta_spec [axisV, axisH] = [(axisH, axisV)]"
  using pi_gt_zero
  by (simp_all add: FindPuzzles_def roughlyOrthogonal_def orderPair_def axis_theta
        DifferenceTheta_spec_eval DELTA_THETA_def upt_rec)

lemma grid_candidates:
  "snd (FindPossiblePuzzleLines [axisH, axisV]) = [axisH, axisV]"
  by (simp add: FindPossiblePuzzleLines_def sortByRho_def axisH_def axisV_def
        combinations_4 search_eval)

theorem more_horizontal_axis_first_witness:
  "(axisH, axisV) \<in> set (FindPuzzles DifferenceTheta_spec [axisV, axisH]) \<and>
   cos (theta (axisV ! 0)) \<le> cos (theta (axisH ! 0)) \<and>
   axisV \<in> set (snd (FindPossiblePuzzleLines [axisH, axisV])) \<and> length axisV = 4"
  using more_horizontal_axis_first [where p = "(axisH, axisV)" and DT = DifferenceTheta_spec
      and axes = "[axisV, axisH]" and a = axisV and cs = "[axisH, axisV]"]
  by (simp add: grid_FindPuzzles grid_candidates)

section \<open>The contract of \<open>Find\<close>\<close>

lemma runStages_fields:
  "lines (runStages MT DT tw th img) = FindLines tw th img"
  "possiblePuzzleLineClusters (runStages MT DT tw th img) =
     snd (FindPossiblePuzzleLines (ClusterizeLinesByTheta MT DT (FindLines tw th img)))"
  "puzzleLines (runStages MT DT tw th img) =
     FindPuzzles DT (snd (FindPossiblePuzzleLines (ClusterizeLinesByTheta MT DT (FindLines tw th img))))"
  by (simp_all add: runStages_def Let_def split: prod.split)

lemma Find_fst:
  "fst (Find MT DT IL tw th img pts pf) \<longleftrightarrow> puzzleLines (runStages MT DT tw th img) \<noteq> []"
  by (simp add: Find_def Let_def)

lemma Find_points:
  "fst (snd (Find MT DT IL tw th img pts pf)) =
     (if puzzleLines (runStages MT DT tw th img) = [] then pts
      else corners IL (fst (puzzleLines (runStages MT DT tw th img) ! 0))
                      (snd (puzzleLines (runStages MT DT tw th img) ! 0)))"
  by (simp add: Find_def Let_def)

lemma Find_finder:
  "snd (snd (Find MT DT IL tw th img pts pf)) = runStages MT DT tw th img"
  by (simp add: Find_def Let_def)



lemma few_axes_no_puzzle:
  "length (possiblePuzzleLineClusters (runStages MT DT tw th img)) < 2 \<Longrightarrow>
     puzzleLines (runStages MT DT tw th img) = []"
  by (simp add: runStages_fields FindPuzzles_def)


text \<open>
  Claim C10: when \<open>Find\<close> returns false, the point list after the call is the point list
  before the call. The list is replaced only when \<open>Find\<close> returns true, that is, when the
  list of puzzle candidates is not empty, and then by the corners of the first candidate.
\<close>

theorem failure_leaves_points_untouched:
  "(\<not> fst (Find MT DT IL tw th img pts pf) \<longrightarrow>
      fst (snd (Find MT DT IL tw th img pts pf)) = pts) \<and>
   (fst (Find MT DT IL tw th img pts pf) \<longrightarrow>
      puzzleLines (runStages MT DT tw th img) \<noteq> [] \<and>
      fst (snd (Find MT DT IL tw th img pts pf)) =
        corners IL (fst (puzzleLines (runStages MT DT tw th img) ! 0))
                   (snd (puzzleLines (runStages MT DT tw th img) ! 0)))"
  by (simp add: Find_fst Find_points)

subsection \<open>The stages on the concrete images\<close>


lemma single_line_no_axes:
  "snd (FindPossiblePuzzleLines (ClusterizeLinesByTheta MT DT [l])) = []"
  by (simp add: ClusterizeLinesByTheta_def addLine_def FindPossiblePuzzleLines_def
        sortByRho_def clusterCandidate_def)

lemma imgFlip_axes:
  "possiblePuzzleLineClusters (runStages MT DT 1 0 imgFlip) = []"
  by (simp add: runStages_fields imgFlip_FindLines single_line_no_axes)

lemma imgGrid_eval:
  "minimumValue imgGrid = 3" "radius imgGrid = 0"
  "belowMinimum imgGrid 0 0" "belowMinimum imgGrid 1 0"
  "belowMinimum imgGrid 0 1" "belowMinimum imgGrid 1 1"
  "belowMinimum imgGrid 0 2" "belowMinimum imgGrid 1 2"
  "belowMinimum imgGrid 0 3" "belowMinimum imgGrid 1 3"
  "\<not> belowMinimum imgGrid 0 4" "\<not> belowMinimum imgGrid 1 4"
  "\<not> belowMinimum imgGrid 0 5" "\<not> belowMinimum imgGrid 1 5"
  "\<not> belowMinimum imgGrid 0 6" "\<not> belowMinimum imgGrid 1 6"
  "\<not> belowMinimum imgGrid 0 7" "\<not> belowMinimum imgGrid 1 7"
  by code_simp+

lemma imgGrid_FindLines: "FindLines 1 0 imgGrid = gridLines"
  unfolding FindLines_def imgGrid_eval(1)
  apply (simp add: imgGrid_def [THEN arg_cong [of _ _ width]]
      imgGrid_def [THEN arg_cong [of _ _ height]] upt_word_2 upt_word_8)
  apply (simp add: scanPixel_def imgGrid_eval isPeak_radius_0 peakLine_def rawTheta_def
      rawRho_def hypot_def Let_def gridLines_def)
  apply (simp add: imgGrid_def)
  done

lemma grid_clusters:
  "ClusterizeLinesByTheta MeanTheta_spec DifferenceTheta_spec gridLines = [axisH, axisV]"
proof -
  let ?a = "addLine MeanTheta_spec DifferenceTheta_spec"
  let ?h = "\<lambda>r. \<lparr>theta = 0, rho = r\<rparr>" and ?v = "\<lambda>r. \<lparr>theta = pi / 2, rho = r\<rparr>"
  have s1: "?a [] (?h 0) = [[?h 0]]"
    by (simp add: cluster_eval)
  have s2: "?a [[?h 0]] (?v 0) = [[?h 0], [?v 0]]"
    using pi_gt_zero by (simp add: cluster_eval)
  have s3: "?a [[?h 0], [?v 0]] (?h (1/4)) = [[?h 0, ?h (1/4)], [?v 0]]"
    using pi_gt_zero by (simp add: cluster_eval)
  have s4: "?a [[?h 0, ?h (1/4)], [?v 0]] (?v (1/4)) = [[?h 0, ?h (1/4)], [?v 0, ?v (1/4)]]"
    using pi_gt_zero by (simp add: cluster_eval)
  have s5: "?a [[?h 0, ?h (1/4)], [?v 0, ?v (1/4)]] (?h (1/2)) =
      [[?h 0, ?h (1/4), ?h (1/2)], [?v 0, ?v (1/4)]]"
    using pi_gt_zero by (simp add: cluster_eval)
  have s6: "?a [[?h 0, ?h (1/4), ?h (1/2)], [?v 0, ?v (1/4)]] (?v (1/2)) =
      [[?h 0, ?h (1/4), ?h (1/2)], [?v 0, ?v (1/4), ?v (1/2)]]"
    using pi_gt_zero by (simp add: cluster_eval)
  have s7: "?a [[?h 0, ?h (1/4), ?h (1/2)], [?v 0, ?v (1/4), ?v (1/2)]] (?h (3/4)) =
      [[?h 0, ?h (1/4), ?h (1/2), ?h (3/4)], [?v 0, ?v (1/4), ?v (1/2)]]"
    using pi_gt_zero by (simp add: cluster_eval)
  have s8: "?a [[?h 0, ?h (1/4), ?h (1/2), ?h (3/4)], [?v 0, ?v (1/4), ?v (1/2)]] (?v (3/4)) =
      [[?h 0, ?h (1/4), ?h (1/2), ?h (3/4)], [?v 0, ?v (1/4), ?v (1/2), ?v (3/4)]]"
    using pi_gt_zero by (simp add: cluster_eval)
  show ?thesis
    by (simp add: ClusterizeLinesByTheta_def gridLines_def axisH_def axisV_def
          s1 s2 s3 s4 s5 s6 s7 s8)
qed

lemma imgGrid_stages:
  "possiblePuzzleLineClusters (runStages MeanTheta_spec DifferenceTheta_spec 1 0 imgGrid) = [axisH, axisV]"
  "puzzleLines (runStages MeanTheta_spec DifferenceTheta_spec 1 0 imgGrid) = [(axisH, axisV)]"
  by (simp_all add: runStages_fields imgGrid_FindLines grid_clusters grid_candidates grid_FindPuzzles)












theorem failure_leaves_points_untouched_witness:
  "\<not> fst (Find MeanTheta_spec DifferenceTheta_spec IntersectLines_spec 1 0 imgFlip [\<lparr>px = 1, py = 2\<rparr>] emptyFinder) \<and>
   fst (snd (Find MeanTheta_spec DifferenceTheta_spec IntersectLines_spec 1 0 imgFlip [\<lparr>px = 1, py = 2\<rparr>] emptyFinder)) =
     [\<lparr>px = 1, py = 2\<rparr>] \<and>
   fst (Find MeanTheta_spec DifferenceTheta_spec IntersectLines_spec 1 0 imgGrid [\<lparr>px = 1, py = 2\<rparr>] emptyFinder) \<and>
   fst (snd (Find MeanTheta_spec DifferenceTheta_spec IntersectLines_spec 1 0 imgGrid [\<lparr>px = 1, py = 2\<rparr>] emptyFinder)) =
     corners IntersectLines_spec axisH axisV"
proof -
  let ?F = "Find MeanTheta_spec DifferenceTheta_spec IntersectLines_spec 1 0"
  note c = failure_leaves_points_untouched [where MT = MeanTheta_spec and DT = DifferenceTheta_spec
      and IL = IntersectLines_spec and tw = 1 and th = 0 and pts = "[\<lparr>px = 1, py = 2\<rparr>]"
      and pf = emptyFinder]
  have flip: "\<not> fst (?F imgFlip [\<lparr>px = 1, py = 2\<rparr>] emptyFinder)"
    by (simp add: Find_fst few_axes_no_puzzle imgFlip_axes)
  have grid: "fst (?F imgGrid [\<lparr>px = 1, py = 2\<rparr>] emptyFinder)"
    by (simp add: Find_fst imgGrid_stages)
  have "fst (snd (?F imgFlip [\<lparr>px = 1, py = 2\<rparr>] emptyFinder)) = [\<lparr>px = 1, py = 2\<rparr>]"
    using c [where img = imgFlip] flip by blast
  moreover have "fst (snd (?F imgGrid [\<lparr>px = 1, py = 2\<rparr>] emptyFinder)) =
      corners IntersectLines_spec axisH axisV"
    using c [where img = imgGrid] grid by (simp add: imgGrid_stages)
  ultimately show ?thesis using flip grid by blast
qed

section \<open>\<open>CachedPuzzleSolver::Solve\<close> reads the digits before it checks their number\<close>

lemma cells_first: "cells = (0, 0) # tl cells"
  by (simp add: cells_def upt_rec)

lemma cells_indexes: "map (\<lambda>(x, y). y * 9 + x) cells = [0..<81]"
  by code_simp

lemma fillGame_short:
  assumes "(x, y) \<in> set cs" and "length digits \<le> y * 9 + x"
  shows "\<exists>f. fillGame digits cs game = Inl f"
  using assms
proof (induction cs arbitrary: game)
  case Nil
  then show ?case by simp
next
  case (Cons c cs)
  obtain cx cy where c: "c = (cx, cy)" by (cases c)
  show ?case
  proof (cases "length digits \<le> cy * 9 + cx")
    case True
    then show ?thesis by (simp add: c)
  next
    case False
    then have "(x, y) \<in> set cs" using Cons.prems c by auto
    then have "\<exists>f. fillGame digits cs g = Inl f" for g
      using Cons.IH Cons.prems(2) by blast
    then show ?thesis
      using False by (auto simp: c Let_def split: sum.splits)
  qed
qed

lemma short_digits_fault:
  assumes "length digits < 81"
  shows "\<exists>f. CachedPuzzleSolver_Solve Solvable SolveGame solver digits solution = Inl f"
proof -
  let ?n = "length digits"
  have "?n \<in> set (map (\<lambda>(x, y). y * 9 + x) cells)"
    unfolding cells_indexes using assms by simp
  then obtain x y where "(x, y) \<in> set cells" "?n = y * 9 + x" by auto
  then have "\<exists>f. DigitsToGame digits = Inl f"
    unfolding DigitsToGame_def by (intro fillGame_short [of x y]) simp_all
  then show ?thesis by (auto simp: CachedPuzzleSolver_Solve_def)
qed

text \<open>
  Claim C9: the calls of \<open>Solve\<close> should validate the digits (exactly 81 of them, among
  other checks) and return false without reading outside the vector. On the empty vector
  the source runs \<open>DigitsToGame\<close> first, which reads \<open>digits[0]\<close>: the call ends in that
  out-of-range read, not in the result false.
\<close>

theorem Solve_reads_before_size_check:
  "DigitsToGame [] = Inl (DigitsIndexOutOfRange 0) \<and>
   CachedPuzzleSolver_Solve Solvable SolveGame solver [] solution = Inl (DigitsIndexOutOfRange 0) \<and>
   CachedPuzzleSolver_Solve Solvable SolveGame solver [] solution \<noteq> Inr (False, solution, solver)"
proof -
  have "fillGame [] cells Game_new = Inl (DigitsIndexOutOfRange 0)"
    by (subst cells_first) simp
  then have "DigitsToGame [] = Inl (DigitsIndexOutOfRange 0)"
    by (simp add: DigitsToGame_def)
  then show ?thesis by (simp add: CachedPuzzleSolver_Solve_def)
qed

end
